theory Spec2Isabelle
  imports Main
begin

section \<open>Python values and the built-in operations the script uses\<close>

text \<open>
  The script \<^verbatim>\<open>examples/demo.py\<close> works on dynamically typed values. The values that
  can occur in its records are modelled by one datatype: \<^verbatim>\<open>None\<close>, booleans, unbounded
  integers, strings, lists and dictionaries with string keys (kept as association lists in
  insertion order, the order in which Python prints them). Floating-point values are not
  modelled. Strings are ASCII text: a \<^typ>\<open>char\<close> stands for the code point of the same
  number below 128, and the case and whitespace tables below are Python's tables for
  that range.
\<close>

datatype pyval =
    PNone
  | PBool bool
  | PInt int
  | PStr string
  | PList "pyval list"
  | PDict "(string \<times> pyval) list"

datatype py_error =
    RuntimeError string
  | AttributeError string
  | TypeError string

subsection \<open>Decimal and hexadecimal digits\<close>

definition digit_char :: "nat \<Rightarrow> char" where
  "digit_char d = char_of (48 + d)"

fun str_of_nat :: "nat \<Rightarrow> string" where
  "str_of_nat n =
     (if n < 10 then [digit_char n] else str_of_nat (n div 10) @ [digit_char (n mod 10)])"

declare str_of_nat.simps [simp del]

definition str_of_int :: "int \<Rightarrow> string" where
  "str_of_int i = (if i < 0 then ''-'' @ str_of_nat (nat (- i)) else str_of_nat (nat i))"

definition hex_char :: "nat \<Rightarrow> char" where
  "hex_char d = (if d < 10 then char_of (48 + d) else char_of (87 + d))"

subsection \<open>\<^verbatim>\<open>str.strip\<close> and \<^verbatim>\<open>str.upper\<close>\<close>

text \<open>
  \<^verbatim>\<open>str.isspace\<close> holds of the code points 9 to 13 and 28 to 32; \<^verbatim>\<open>strip()\<close> removes
  the longest run of them at each end.
\<close>

definition py_isspace :: "char \<Rightarrow> bool" where
  "py_isspace c = (let n = (of_char c :: nat) in (9 \<le> n \<and> n \<le> 13) \<or> (28 \<le> n \<and> n \<le> 32))"

definition py_strip :: "string \<Rightarrow> string" where
  "py_strip s = rev (dropWhile py_isspace (rev (dropWhile py_isspace s)))"

definition upper_char :: "char \<Rightarrow> char" where
  "upper_char c = (let n = (of_char c :: nat) in if 97 \<le> n \<and> n \<le> 122 then char_of (n - 32) else c)"

definition py_upper :: "string \<Rightarrow> string" where
  "py_upper s = map upper_char s"

subsection \<open>\<^verbatim>\<open>repr\<close> and \<^verbatim>\<open>str\<close>\<close>

fun join :: "string \<Rightarrow> string list \<Rightarrow> string" where
  "join sep [] = []"
| "join sep [x] = x"
| "join sep (x # y # ys) = x @ sep @ join sep (y # ys)"

text \<open>
  \<^verbatim>\<open>repr\<close> of a string puts it in single quotes, or in double quotes when it holds a single
  quote and no double quote; the chosen quote and the backslash are escaped, tab, newline
  and carriage return get their letter escapes and the other control characters a
  two-digit \<^verbatim>\<open>\x\<close> escape.
\<close>

definition repr_quote :: "string \<Rightarrow> char" where
  "repr_quote s = (if CHR 0x27 \<in> set s \<and> CHR 0x22 \<notin> set s then CHR 0x22 else CHR 0x27)"

definition repr_char :: "char \<Rightarrow> char \<Rightarrow> string" where
  "repr_char quote c =
     (let n = (of_char c :: nat) in
      if c = quote \<or> c = CHR 0x5C then [CHR 0x5C, c]
      else if n = 9 then [CHR 0x5C, CHR ''t'']
      else if n = 10 then [CHR 0x5C, CHR ''n'']
      else if n = 13 then [CHR 0x5C, CHR ''r'']
      else if n < 32 \<or> n = 127 then [CHR 0x5C, CHR ''x'', hex_char (n div 16), hex_char (n mod 16)]
      else [c])"

definition repr_str :: "string \<Rightarrow> string" where
  "repr_str s = (let quote = repr_quote s in [quote] @ concat (map (repr_char quote) s) @ [quote])"

fun py_repr :: "pyval \<Rightarrow> string" where
  "py_repr PNone = ''None''"
| "py_repr (PBool b) = (if b then ''True'' else ''False'')"
| "py_repr (PInt i) = str_of_int i"
| "py_repr (PStr s) = repr_str s"
| "py_repr (PList xs) = ''['' @ join '', '' (map py_repr xs) @ '']''"
| "py_repr (PDict kvs) =
     ''{'' @ join '', '' (map (\<lambda>(k, v). repr_str k @ '': '' @ py_repr v) kvs) @ ''}''"

text \<open>\<^verbatim>\<open>str(v)\<close>, which is also what an f-string field \<^verbatim>\<open>{v}\<close> inserts.\<close>

fun py_str :: "pyval \<Rightarrow> string" where
  "py_str (PStr s) = s"
| "py_str v = py_repr v"

subsection \<open>Truth value, type name, and the two operations that can raise\<close>

fun truthy :: "pyval \<Rightarrow> bool" where
  "truthy PNone = False"
| "truthy (PBool b) = b"
| "truthy (PInt i) = (i \<noteq> 0)"
| "truthy (PStr s) = (s \<noteq> [])"
| "truthy (PList xs) = (xs \<noteq> [])"
| "truthy (PDict kvs) = (kvs \<noteq> [])"

fun type_name :: "pyval \<Rightarrow> string" where
  "type_name PNone = ''NoneType''"
| "type_name (PBool b) = ''bool''"
| "type_name (PInt i) = ''int''"
| "type_name (PStr s) = ''str''"
| "type_name (PList xs) = ''list''"
| "type_name (PDict kvs) = ''dict''"

definition quoted :: "string \<Rightarrow> string" where
  "quoted s = [CHR 0x27] @ s @ [CHR 0x27]"

text \<open>\<^verbatim>\<open>value.upper()\<close>: only a string has the method.\<close>

fun upper_method :: "pyval \<Rightarrow> py_error + string" where
  "upper_method (PStr s) = Inr (py_upper s)"
| "upper_method v =
     Inl (AttributeError (quoted (type_name v) @ '' object has no attribute '' @ quoted ''upper''))"

text \<open>
  \<^verbatim>\<open>value * 2\<close>: an integer is doubled, a boolean counts as 0 or 1, a string or a list is
  repeated twice; \<^verbatim>\<open>None\<close> and a dictionary have no multiplication.
\<close>

fun times_two :: "pyval \<Rightarrow> py_error + pyval" where
  "times_two (PInt i) = Inr (PInt (i * 2))"
| "times_two (PBool b) = Inr (PInt ((if b then 1 else 0) * 2))"
| "times_two (PStr s) = Inr (PStr (s @ s))"
| "times_two (PList xs) = Inr (PList (xs @ xs))"
| "times_two v =
     Inl (TypeError (''unsupported operand type(s) for *: '' @ quoted (type_name v) @ '' and ''
            @ quoted ''int''))"

section \<open>\<^verbatim>\<open>DatabaseManager\<close>\<close>

text \<open>
  The object's three attributes form a record; the cache dictionary is a map from the
  derived key to the stored result dictionary, itself a record of its four entries.
\<close>

record query_result =
  sql :: string
  params :: "string list"
  timestamp :: string
  rows_affected :: nat

record database_manager =
  connection :: string
  cache :: "string \<rightharpoonup> query_result"
  is_connected :: bool

definition init :: "string \<Rightarrow> database_manager" where
  "init connection_string = \<lparr>connection = connection_string, cache = Map.empty, is_connected = False\<rparr>"

text \<open>
  \<^verbatim>\<open>connect\<close> prints, sets the flag and returns \<^verbatim>\<open>True\<close>; the \<^verbatim>\<open>except ConnectionError\<close>
  branch prints the failure and returns \<^verbatim>\<open>False\<close>; the \<^verbatim>\<open>finally\<close> clause prints in both
  cases. The only statement of the \<^verbatim>\<open>try\<close> block that can raise is the first \<^verbatim>\<open>print\<close>,
  so its outcome is an argument: \<open>None\<close> when it succeeds, \<open>Some e\<close> when it raises a
  \<^verbatim>\<open>ConnectionError\<close> whose text is \<open>e\<close>. The result is the returned boolean, the object
  afterwards and the lines printed.
\<close>

definition connect :: "string option \<Rightarrow> database_manager \<Rightarrow> bool \<times> database_manager \<times> string list" where
  "connect raised self =
     (case raised of
        None \<Rightarrow>
          (True, self\<lparr>is_connected := True\<rparr>,
           [''Connecting to: '' @ connection self, ''Connection attempt completed''])
      | Some e \<Rightarrow>
          (False, self, [''Failed to connect: '' @ e, ''Connection attempt completed'']))"

text \<open>
  \<^verbatim>\<open>query\<close>. Python's \<^verbatim>\<open>hash\<close> of a string is fixed within one process and differs
  between processes, and \<^verbatim>\<open>datetime.now().isoformat()\<close> reads the clock: the hash function
  and the text the clock would give during the call are arguments. The result is the
  raised error or the returned dictionary, the object afterwards, and the lines printed.
\<close>

definition str_params :: "string list option \<Rightarrow> string" where
  "str_params ps = py_str (case ps of None \<Rightarrow> PNone | Some xs \<Rightarrow> PList (map PStr xs))"

definition cache_key :: "(string \<Rightarrow> int) \<Rightarrow> string \<Rightarrow> string list option \<Rightarrow> string" where
  "cache_key hash q ps =
     ''query_'' @ str_of_int (hash q) @ ''_'' @ str_of_int (hash (str_params ps))"

text \<open>
  To run \<^verbatim>\<open>query\<close> on a concrete input a hash function has to be chosen. The length of
  the string stands in for the hash of one process in the examples below.
\<close>

definition length_hash :: "string \<Rightarrow> int" where
  "length_hash s = int (length s)"

definition cleaned_params :: "string list option \<Rightarrow> string list" where
  "cleaned_params ps =
     map py_strip (filter (\<lambda>p. p \<noteq> []) (case ps of None \<Rightarrow> [] | Some xs \<Rightarrow> xs))"

text \<open>
  The cleaning as the specification words it, for comparison with the comprehension of the
  source: strip every entry, then drop the entries that are empty.
\<close>

definition cleaned_params_spec :: "string list option \<Rightarrow> string list" where
  "cleaned_params_spec ps =
     filter (\<lambda>p. p \<noteq> []) (map py_strip (case ps of None \<Rightarrow> [] | Some xs \<Rightarrow> xs))"

definition query ::
  "(string \<Rightarrow> int) \<Rightarrow> string \<Rightarrow> string \<Rightarrow> string list option \<Rightarrow> database_manager
    \<Rightarrow> (py_error + query_result) \<times> database_manager \<times> string list" where
  "query hash now q ps self =
     (if \<not> is_connected self then (Inl (RuntimeError ''Not connected to database''), self, [])
      else
        let key = cache_key hash q ps in
        case cache self key of
          Some stored \<Rightarrow> (Inr stored, self, [''Cache hit!''])
        | None \<Rightarrow>
            let result = \<lparr>sql = q, params = cleaned_params ps, timestamp = now,
                          rows_affected = length (cleaned_params ps)\<rparr>
            in (Inr result, self\<lparr>cache := (cache self)(key \<mapsto> result)\<rparr>, []))"

section \<open>\<^verbatim>\<open>process_data\<close>\<close>

text \<open>
  A record of the batch is a dictionary with string keys; \<^verbatim>\<open>item.get(k)\<close> gives \<^verbatim>\<open>None\<close>
  for a key that is absent.
\<close>

type_synonym item = "string \<rightharpoonup> pyval"

definition dict_get :: "item \<Rightarrow> string \<Rightarrow> pyval" where
  "dict_get item k = (case item k of None \<Rightarrow> PNone | Some v \<Rightarrow> v)"

text \<open>
  The \<^verbatim>\<open>match\<close> statement: a literal pattern compares with \<^verbatim>\<open>==\<close>, so an arm is taken
  only by the string of that spelling, and everything else falls to the default arm.
\<close>

definition processed :: "pyval \<Rightarrow> pyval \<Rightarrow> py_error + string" where
  "processed tag v =
     (if tag = PStr ''string'' then
        (case upper_method v of Inl e \<Rightarrow> Inl e | Inr u \<Rightarrow> Inr (''String: '' @ u))
      else if tag = PStr ''number'' then
        (case times_two v of Inl e \<Rightarrow> Inl e | Inr d \<Rightarrow> Inr (''Number: '' @ py_str d))
      else if tag = PStr ''boolean'' then Inr (''Boolean: '' @ py_str (PBool (\<not> truthy v)))
      else Inr (''Unknown: '' @ py_str v))"

definition error_msg :: string where
  "error_msg =
     ''\<newline>            Error: Item missing required '' @ quoted ''value'' @ '' field.'' @
     ''\<newline>            This is a multi-line string to demonstrate'' @
     ''\<newline>            syntax highlighting for different string types.'' @
     ''\<newline>            ''"

text \<open>
  The loop over \<^verbatim>\<open>enumerate(items)\<close>, with the index, the list \<^verbatim>\<open>results\<close> and the lines
  printed so far. An exception of the transformation leaves the loop at once: the
  function then has no return value, and what was printed before stays printed.
\<close>

fun process_loop ::
  "nat \<Rightarrow> item list \<Rightarrow> string list \<Rightarrow> string list \<Rightarrow> (py_error + string list) \<times> string list" where
  "process_loop i [] results out = (Inr results, out)"
| "process_loop i (item # items) results out =
     (let v = dict_get item ''value'' in
      if v \<noteq> PNone then
        (case processed (dict_get item ''type'') v of
           Inl e \<Rightarrow> (Inl e, out)
         | Inr p \<Rightarrow>
             process_loop (Suc i) items (results @ [''Item '' @ str_of_nat i @ '': '' @ p]) out)
      else process_loop (Suc i) items results (out @ [py_strip error_msg]))"

definition process_data :: "item list \<Rightarrow> (py_error + string list) \<times> string list" where
  "process_data items = process_loop 0 items [] []"

section \<open>Auxiliary facts\<close>

subsection \<open>Decimal printing is injective\<close>

lemma of_char_digit_char: "d < 10 \<Longrightarrow> of_char (digit_char d) = 48 + d"
proof -
  assume "d < 10"
  then have "(48 + d) mod 256 = 48 + d" by simp
  then show ?thesis
    unfolding digit_char_def of_char_of .
qed

lemma digit_char_inj:
  assumes "a < 10" and "b < 10" and eq: "digit_char a = digit_char b"
  shows "a = b"
proof -
  have "48 + a = (of_char (digit_char a) :: nat)"
    using assms(1) by (simp only: of_char_digit_char)
  also have "\<dots> = of_char (digit_char b)"
    by (simp only: eq)
  also have "\<dots> = 48 + b"
    using assms(2) by (simp only: of_char_digit_char)
  finally show ?thesis by simp
qed

lemma digit_char_not_minus: "d < 10 \<Longrightarrow> digit_char d \<noteq> CHR ''-''"
proof
  assume "d < 10" and "digit_char d = CHR ''-''"
  then have "of_char (digit_char d) = (45 :: nat)" by simp
  with \<open>d < 10\<close> show False by (simp only: of_char_digit_char)
qed

lemma str_of_nat_not_Nil: "str_of_nat n \<noteq> []"
  by (subst str_of_nat.simps) simp

lemma str_of_nat_no_minus: "CHR ''-'' \<notin> set (str_of_nat n)"
proof (induction n rule: str_of_nat.induct)
  case (1 n)
  show ?case
  proof (cases "n < 10")
    case True
    then show ?thesis
      using digit_char_not_minus [of n] by (subst str_of_nat.simps) auto
  next
    case False
    with 1 digit_char_not_minus [of "n mod 10"] show ?thesis
      by (subst str_of_nat.simps) auto
  qed
qed

lemma str_of_nat_inj: "str_of_nat n = str_of_nat m \<Longrightarrow> n = m"
proof (induction n arbitrary: m rule: str_of_nat.induct)
  case (1 n)
  show ?case
  proof (cases "n < 10")
    case n: True
    show ?thesis
    proof (cases "m < 10")
      case True
      with n "1.prems" show ?thesis
        by (simp add: str_of_nat.simps [of n] str_of_nat.simps [of m] digit_char_inj)
    next
      case False
      with n "1.prems" str_of_nat_not_Nil [of "m div 10"] show ?thesis
        by (simp add: str_of_nat.simps [of n] str_of_nat.simps [of m] Cons_eq_append_conv)
    qed
  next
    case n: False
    show ?thesis
    proof (cases "m < 10")
      case True
      with n "1.prems" str_of_nat_not_Nil [of "n div 10"] show ?thesis
        by (simp add: str_of_nat.simps [of n] str_of_nat.simps [of m] append_eq_Cons_conv)
    next
      case False
      with n "1.prems" have eq: "str_of_nat (n div 10) = str_of_nat (m div 10)"
        and d: "digit_char (n mod 10) = digit_char (m mod 10)"
        by (simp_all add: str_of_nat.simps [of n] str_of_nat.simps [of m])
      from "1.IH" [OF n eq] have "n div 10 = m div 10" .
      moreover from d have "n mod 10 = m mod 10"
        by (intro digit_char_inj) simp_all
      ultimately show ?thesis
        by (metis div_mult_mod_eq)
    qed
  qed
qed

lemma str_of_int_inj: "str_of_int a = str_of_int b \<Longrightarrow> a = b"
proof -
  assume eq: "str_of_int a = str_of_int b"
  have neg_pos: False if "x < 0" "\<not> y < 0" "str_of_int x = str_of_int y" for x y :: int
  proof -
    from that have "CHR ''-'' \<in> set (str_of_nat (nat y))"
      by (simp add: str_of_int_def) (metis list.set_intros(1))
    with str_of_nat_no_minus show False by blast
  qed
  show ?thesis
  proof (cases "a < 0")
    case a: True
    show ?thesis
    proof (cases "b < 0")
      case True
      with a eq have "nat (- a) = nat (- b)"
        by (simp add: str_of_int_def str_of_nat_inj)
      with a True show ?thesis by simp
    next
      case False
      with a eq neg_pos show ?thesis by blast
    qed
  next
    case a: False
    show ?thesis
    proof (cases "b < 0")
      case True
      with a eq neg_pos [of b a] show ?thesis by simp
    next
      case False
      with a eq have "nat a = nat b"
        by (simp add: str_of_int_def str_of_nat_inj)
      with a False show ?thesis by simp
    qed
  qed
qed

text \<open>
  For one query text, two parameter lists get the same key exactly when the hash does not
  tell their raw string forms apart.
\<close>

lemma cache_key_eq_iff:
  "cache_key hash q ps1 = cache_key hash q ps2 \<longleftrightarrow>
     hash (str_params ps1) = hash (str_params ps2)"
  by (auto simp: cache_key_def dest: str_of_int_inj)

subsection \<open>What \<^verbatim>\<open>strip\<close> leaves\<close>

lemma last_dropWhile: "dropWhile P xs \<noteq> [] \<Longrightarrow> last (dropWhile P xs) = last xs"
  by (induction xs) (auto split: if_splits)

lemma py_strip_Nil_iff: "py_strip s = [] \<longleftrightarrow> (\<forall>c \<in> set s. py_isspace c)"
proof
  assume "py_strip s = []"
  then have all: "\<forall>c \<in> set (dropWhile py_isspace s). py_isspace c"
    by (simp add: py_strip_def)
  have "dropWhile py_isspace s = []"
  proof (rule ccontr)
    assume ne: "dropWhile py_isspace s \<noteq> []"
    then have "\<not> py_isspace (hd (dropWhile py_isspace s))"
      by (rule hd_dropWhile)
    moreover from ne have "hd (dropWhile py_isspace s) \<in> set (dropWhile py_isspace s)"
      by simp
    ultimately show False using all by blast
  qed
  then show "\<forall>c \<in> set s. py_isspace c"
    by simp
next
  assume "\<forall>c \<in> set s. py_isspace c"
  then show "py_strip s = []"
    by (auto simp: py_strip_def dest: set_dropWhileD)
qed

lemma py_strip_ends:
  assumes "py_strip s \<noteq> []"
  shows "\<not> py_isspace (hd (py_strip s)) \<and> \<not> py_isspace (last (py_strip s))"
proof -
  let ?t = "dropWhile py_isspace s"
  let ?u = "dropWhile py_isspace (rev ?t)"
  from assms have u: "?u \<noteq> []" by (simp add: py_strip_def)
  then have t: "?t \<noteq> []"
    by (metis dropWhile.simps(1) rev.simps(1))
  from u have "\<not> py_isspace (hd ?u)" by (rule hd_dropWhile)
  then have l: "\<not> py_isspace (last (py_strip s))"
    using u by (simp add: py_strip_def last_rev)
  from u have "last ?u = last (rev ?t)" by (rule last_dropWhile)
  also from t have "\<dots> = hd ?t" by (simp add: last_rev)
  finally have "hd (py_strip s) = hd ?t"
    using u by (simp add: py_strip_def hd_rev)
  moreover from t have "\<not> py_isspace (hd ?t)" by (rule hd_dropWhile)
  ultimately show ?thesis using l by simp
qed

lemma py_strip_decomp:
  "\<exists>a b. s = a @ py_strip s @ b \<and> (\<forall>c \<in> set a. py_isspace c) \<and> (\<forall>c \<in> set b. py_isspace c)"
proof -
  let ?a = "takeWhile py_isspace s"
  let ?t = "dropWhile py_isspace s"
  let ?b = "rev (takeWhile py_isspace (rev ?t))"
  have "?t = rev (takeWhile py_isspace (rev ?t) @ dropWhile py_isspace (rev ?t))"
    by (simp only: takeWhile_dropWhile_id rev_rev_ident)
  also have "\<dots> = py_strip s @ ?b"
    by (simp only: rev_append py_strip_def)
  finally have "?t = py_strip s @ ?b" .
  moreover have "s = ?a @ ?t" by simp
  ultimately have "s = ?a @ py_strip s @ ?b" by simp
  moreover have "\<forall>c \<in> set ?a. py_isspace c"
    by (auto dest: set_takeWhileD)
  moreover have "\<forall>c \<in> set ?b. py_isspace c"
    by (auto dest: set_takeWhileD)
  ultimately show ?thesis by blast
qed

text \<open>
  The comprehension of the source tests an entry before stripping it, the specification's
  wording after: the two agree up to the empty strings that whitespace-only entries leave.
\<close>

lemma cleaned_params_spec_eq:
  "cleaned_params_spec ps = filter (\<lambda>p. p \<noteq> []) (cleaned_params ps)"
proof -
  have "filter (\<lambda>p. p \<noteq> []) (map py_strip xs)
          = filter (\<lambda>p. p \<noteq> []) (map py_strip (filter (\<lambda>p. p \<noteq> []) xs))" for xs
    by (induction xs) (auto simp: py_strip_def)
  then show ?thesis
    by (simp add: cleaned_params_spec_def cleaned_params_def)
qed

lemma cleaned_params_agree:
  assumes "\<forall>p \<in> set (case ps of None \<Rightarrow> [] | Some xs \<Rightarrow> xs).
             p \<noteq> [] \<longrightarrow> (\<exists>c \<in> set p. \<not> py_isspace c)"
  shows "cleaned_params ps = cleaned_params_spec ps"
proof -
  have "map py_strip (filter (\<lambda>p. p \<noteq> []) xs) = filter (\<lambda>p. p \<noteq> []) (map py_strip xs)"
    if "\<forall>p \<in> set xs. p \<noteq> [] \<longrightarrow> (\<exists>c \<in> set p. \<not> py_isspace c)" for xs
    using that by (induction xs) (auto simp: py_strip_Nil_iff)
  with assms show ?thesis
    by (simp add: cleaned_params_spec_def cleaned_params_def)
qed

subsection \<open>The two parameter lists of the key example\<close>

lemma example_cleaned:
  "cleaned_params (Some ['' a '', ''b'']) = [''a'', ''b'']"
  "cleaned_params (Some [''a'', ''b'']) = [''a'', ''b'']"
  by code_simp+

lemma example_str_params:
  "str_params (Some ['' a '', ''b'']) = ''['' @ quoted '' a '' @ '', '' @ quoted ''b'' @ '']''"
  "str_params (Some [''a'', ''b'']) = ''['' @ quoted ''a'' @ '', '' @ quoted ''b'' @ '']''"
  by code_simp+

lemma example_keys:
  "cache_key (\<lambda>s. int (length s)) ''SELECT 1'' (Some ['' a '', ''b'']) = ''query_8_12''"
  "cache_key (\<lambda>s. int (length s)) ''SELECT 1'' (Some [''a'', ''b'']) = ''query_8_10''"
  by code_simp+

subsection \<open>The loop of \<^verbatim>\<open>process_data\<close>\<close>

lemma dict_get_None_iff:
  "dict_get item k = PNone \<longleftrightarrow> item k = None \<or> item k = Some PNone"
  by (simp add: dict_get_def split: option.splits)

lemma str_of_nat_0: "str_of_nat 0 = ''0''"
  by code_simp

lemma process_loop_append_Inr:
  "process_loop i xs rs out = (Inr rs', out') \<Longrightarrow>
     process_loop i (xs @ ys) rs out = process_loop (i + length xs) ys rs' out'"
  by (induction xs arbitrary: i rs out) (auto simp: Let_def split: sum.splits if_splits)

lemma process_loop_append_Inl:
  "process_loop i xs rs out = (Inl e, out') \<Longrightarrow>
     process_loop i (xs @ ys) rs out = (Inl e, out')"
  by (induction xs arbitrary: i rs out) (auto simp: Let_def split: sum.splits if_splits)

lemma process_loop_acc_Inr:
  "process_loop i xs rs out = (Inr r, o') \<Longrightarrow>
     process_loop i xs (rs0 @ rs) (out0 @ out) = (Inr (rs0 @ r), out0 @ o')"
  by (induction xs arbitrary: i rs out) (auto simp: Let_def split: sum.splits if_splits)

lemma process_loop_acc_Inl:
  "process_loop i xs rs out = (Inl e, o') \<Longrightarrow>
     process_loop i xs (rs0 @ rs) (out0 @ out) = (Inl e, out0 @ o')"
  by (induction xs arbitrary: i rs out) (auto simp: Let_def split: sum.splits if_splits)

lemma process_loop_from_empty:
  "process_loop i xs rs out =
     (case process_loop i xs [] [] of
        (Inl e, o') \<Rightarrow> (Inl e, out @ o')
      | (Inr r, o') \<Rightarrow> (Inr (rs @ r), out @ o'))"
proof (cases "process_loop i xs [] []")
  case (Pair res o')
  show ?thesis
  proof (cases res)
    case (Inl e)
    with Pair process_loop_acc_Inl [of i xs "[]" "[]" e o' rs out] show ?thesis by simp
  next
    case (Inr r)
    with Pair process_loop_acc_Inr [of i xs "[]" "[]" r o' rs out] show ?thesis by simp
  qed
qed

text \<open>
  A run that returns has appended one labelled line for each record with a value, in
  order and under the record's own index, and has printed one diagnostic for each record
  without one.
\<close>

lemma process_loop_shape:
  "process_loop i xs rs out = (Inr rs', out') \<Longrightarrow>
     \<exists>new. rs' = rs @ new \<and>
       list_all2
         (\<lambda>line (k, item).
            \<exists>p. processed (dict_get item ''type'') (dict_get item ''value'') = Inr p \<and>
                line = ''Item '' @ str_of_nat k @ '': '' @ p)
         new
         (filter (\<lambda>(k, item). dict_get item ''value'' \<noteq> PNone) (enumerate i xs)) \<and>
       out' = out @ replicate (length (filter (\<lambda>item. dict_get item ''value'' = PNone) xs))
                      (py_strip error_msg)"
proof (induction xs arbitrary: i rs out)
  case Nil
  then show ?case by simp
next
  case (Cons item xs)
  show ?case
  proof (cases "dict_get item ''value'' = PNone")
    case True
    with Cons.prems have "process_loop (Suc i) xs rs (out @ [py_strip error_msg]) = (Inr rs', out')"
      by simp
    from Cons.IH [OF this] True show ?thesis
      by (auto simp: replicate_append_same)
  next
    case False
    with Cons.prems obtain p where
      p: "processed (dict_get item ''type'') (dict_get item ''value'') = Inr p"
      and rest: "process_loop (Suc i) xs (rs @ [''Item '' @ str_of_nat i @ '': '' @ p]) out = (Inr rs', out')"
      by (auto simp: Let_def split: sum.splits)
    from Cons.IH [OF rest] obtain new where
      new: "rs' = (rs @ [''Item '' @ str_of_nat i @ '': '' @ p]) @ new"
        "list_all2
           (\<lambda>line (k, item).
              \<exists>p. processed (dict_get item ''type'') (dict_get item ''value'') = Inr p \<and>
                  line = ''Item '' @ str_of_nat k @ '': '' @ p)
           new
           (filter (\<lambda>(k, item). dict_get item ''value'' \<noteq> PNone) (enumerate (Suc i) xs))"
        "out' = out @ replicate (length (filter (\<lambda>item. dict_get item ''value'' = PNone) xs))
                      (py_strip error_msg)"
      by blast
    with False p show ?thesis
      by (intro exI [of _ "(''Item '' @ str_of_nat i @ '': '' @ p) # new"]) simp
  qed
qed

lemma length_filter_enumerate:
  "length (filter (\<lambda>(i, x). Q x) (enumerate n xs)) = length (filter Q xs)"
  by (induction xs arbitrary: n) auto

text \<open>
  The loop returns exactly when no transformation raises; otherwise the error is that of a
  record with a value.
\<close>

lemma process_loop_total:
  "(\<forall>item \<in> set xs. dict_get item ''value'' \<noteq> PNone \<longrightarrow>
      (\<exists>p. processed (dict_get item ''type'') (dict_get item ''value'') = Inr p)) \<Longrightarrow>
   \<exists>rs' out'. process_loop i xs rs out = (Inr rs', out')"
  by (induction xs arbitrary: i rs out) (auto simp: Let_def)

lemma process_loop_raises:
  "process_loop i xs rs out = (Inl e, out') \<Longrightarrow>
   \<exists>item \<in> set xs. dict_get item ''value'' \<noteq> PNone \<and>
      processed (dict_get item ''type'') (dict_get item ''value'') = Inl e"
  by (induction xs arbitrary: i rs out) (auto simp: Let_def split: if_splits sum.splits)

text \<open>The step of the loop at a record with a value, after a prefix that returned.\<close>

lemma present_value_step:
  assumes v: "dict_get item ''value'' = v" "v \<noteq> PNone"
    and before: "process_data xs = (Inr rs, out)"
  shows "process_data (xs @ item # ys) =
           (case processed (dict_get item ''type'') v of
              Inl e \<Rightarrow> (Inl e, out)
            | Inr p \<Rightarrow>
                process_loop (Suc (length xs)) ys
                  (rs @ [''Item '' @ str_of_nat (length xs) @ '': '' @ p]) out)"
proof -
  from before have "process_data (xs @ item # ys) = process_loop (0 + length xs) (item # ys) rs out"
    unfolding process_data_def by (rule process_loop_append_Inr)
  with v show ?thesis
    by (simp add: Let_def)
qed

lemma times_two_fails_iff: "(\<exists>e. times_two v = Inl e) \<longleftrightarrow> v = PNone \<or> (\<exists>kvs. v = PDict kvs)"
  by (cases v) auto

lemma upper_method_fails_iff: "(\<exists>e. upper_method v = Inl e) \<longleftrightarrow> (\<forall>s. v \<noteq> PStr s)"
  by (cases v) auto

section \<open>Properties of \<^verbatim>\<open>DatabaseManager\<close>\<close>

subsection \<open>The connection gate\<close>

text \<open>
  C3. For every query text and parameter list, \<^verbatim>\<open>query\<close> on an object whose connection
  flag is false raises the "not connected" error before the cache is looked at: the object,
  and so its cache, is as it was, and nothing is printed.
\<close>

theorem query_not_connected:
  "\<not> is_connected self \<Longrightarrow>
     query hash now q ps self = (Inl (RuntimeError ''Not connected to database''), self, [])"
  by (simp add: query_def)

theorem query_not_connected_witness:
  "\<not> is_connected (init ''postgresql://localhost:5432/mydb'') \<and>
   query (\<lambda>s. int (length s)) ''2024-01-01T00:00:00'' ''SELECT 1'' (Some [''a''])
       (init ''postgresql://localhost:5432/mydb'')
     = (Inl (RuntimeError ''Not connected to database''),
        init ''postgresql://localhost:5432/mydb'', [])"
  using query_not_connected [of "init ''postgresql://localhost:5432/mydb''"]
  by (simp add: init_def)

subsection \<open>\<^verbatim>\<open>connect\<close>\<close>

text \<open>
  C9. When the connection step raises nothing, \<^verbatim>\<open>connect\<close> returns true and leaves the
  flag true, after one attempt: one "Connecting" line and the closing line are printed and
  no failure is reported; the cache is not touched. The failure branch is taken only when
  the step raises a connection error; it returns false and leaves the object as it was.
\<close>

theorem connect_sets_flag:
  "connect None self =
     (True, self\<lparr>is_connected := True\<rparr>,
      [''Connecting to: '' @ connection self, ''Connection attempt completed'']) \<and>
   is_connected (fst (snd (connect None self))) \<and>
   cache (fst (snd (connect None self))) = cache self \<and>
   connect (Some e) self =
     (False, self, [''Failed to connect: '' @ e, ''Connection attempt completed''])"
  by (simp add: connect_def)

subsection \<open>Repeated queries\<close>

text \<open>
  C1. On a connected object, two calls of \<^verbatim>\<open>query\<close> in succession with the same text and
  parameter list return the same dictionary: the second call is a cache hit that returns
  the stored value, leaves the object (and the stored entry) as the first call left it,
  and ignores the clock. When the first call was a miss, the shared timestamp is the one
  the first call read.
\<close>

theorem query_twice:
  assumes conn: "is_connected self"
    and first: "query hash now1 q ps self = (res1, self1, out1)"
  shows "\<exists>r. res1 = Inr r \<and>
           query hash now2 q ps self1 = (Inr r, self1, [''Cache hit!'']) \<and>
           cache self1 (cache_key hash q ps) = Some r \<and>
           (cache self (cache_key hash q ps) = None \<longrightarrow>
              r = \<lparr>sql = q, params = cleaned_params ps, timestamp = now1,
                   rows_affected = length (cleaned_params ps)\<rparr>)"
proof (cases "cache self (cache_key hash q ps)")
  case None
  with conn first show ?thesis
    by (auto simp: query_def Let_def)
next
  case (Some stored)
  with conn first show ?thesis
    by (auto simp: query_def Let_def)
qed

theorem query_twice_witness:
  "is_connected \<lparr>connection = ''db'', cache = Map.empty, is_connected = True\<rparr> \<and>
   (\<exists>r self1.
      query (\<lambda>s. int (length s)) ''t1'' ''SELECT 1'' (Some ['' a '', ''b''])
          \<lparr>connection = ''db'', cache = Map.empty, is_connected = True\<rparr> = (Inr r, self1, []) \<and>
      query (\<lambda>s. int (length s)) ''t2'' ''SELECT 1'' (Some ['' a '', ''b'']) self1
        = (Inr r, self1, [''Cache hit!'']) \<and>
      timestamp r = ''t1'')"
proof -
  let ?h = "\<lambda>s. int (length s)"
  let ?ps = "Some ['' a '', ''b'']"
  let ?s = "\<lparr>connection = ''db'', cache = Map.empty, is_connected = True\<rparr>"
  let ?r = "\<lparr>sql = ''SELECT 1'', params = cleaned_params ?ps, timestamp = ''t1'',
             rows_affected = length (cleaned_params ?ps)\<rparr>"
  let ?s1 = "?s\<lparr>cache := (cache ?s)(cache_key ?h ''SELECT 1'' ?ps \<mapsto> ?r)\<rparr>"
  have conn: "is_connected ?s" by simp
  have first: "query ?h ''t1'' ''SELECT 1'' ?ps ?s = (Inr ?r, ?s1, [])"
    by (simp add: query_def Let_def)
  from query_twice [OF conn first, of "''t2''"]
  have "query ?h ''t2'' ''SELECT 1'' ?ps ?s1 = (Inr ?r, ?s1, [''Cache hit!''])"
    by auto
  with conn first show ?thesis
    by (intro conjI exI [of _ ?r] exI [of _ ?s1]) simp_all
qed

subsection \<open>A cache miss\<close>

text \<open>
  C4 (amended). On a cache miss of a connected object, \<^verbatim>\<open>query\<close>, with a missing
  parameter list taken as empty, returns a dictionary whose \<^verbatim>\<open>sql\<close> is the query text
  unchanged and whose \<^verbatim>\<open>params\<close> are the entries that are non-empty as given, each
  stripped of surrounding whitespace, in their order; \<^verbatim>\<open>rows_affected\<close> is the length of
  that list, the timestamp is the clock's, and the dictionary is stored under the derived
  key. An entry of whitespace only is kept, as the empty string; when the list has no such
  entry the result is the list the specification describes.
\<close>

theorem query_miss:
  assumes conn: "is_connected self"
    and miss: "cache self (cache_key hash q ps) = None"
  shows "\<exists>r. query hash now q ps self
              = (Inr r, self\<lparr>cache := (cache self)(cache_key hash q ps \<mapsto> r)\<rparr>, []) \<and>
           sql r = q \<and>
           params r = map py_strip (filter (\<lambda>p. p \<noteq> []) (case ps of None \<Rightarrow> [] | Some xs \<Rightarrow> xs)) \<and>
           (\<forall>p \<in> set (params r). p = [] \<or> (\<not> py_isspace (hd p) \<and> \<not> py_isspace (last p))) \<and>
           rows_affected r = length (params r) \<and>
           timestamp r = now \<and>
           ((\<forall>p \<in> set (case ps of None \<Rightarrow> [] | Some xs \<Rightarrow> xs).
                p \<noteq> [] \<longrightarrow> (\<exists>c \<in> set p. \<not> py_isspace c))
              \<longrightarrow> params r = cleaned_params_spec ps)"
proof -
  let ?r = "\<lparr>sql = q, params = cleaned_params ps, timestamp = now,
             rows_affected = length (cleaned_params ps)\<rparr>"
  from conn miss have "query hash now q ps self
      = (Inr ?r, self\<lparr>cache := (cache self)(cache_key hash q ps \<mapsto> ?r)\<rparr>, [])"
    by (simp add: query_def Let_def)
  moreover have "\<forall>p \<in> set (cleaned_params ps).
      p = [] \<or> (\<not> py_isspace (hd p) \<and> \<not> py_isspace (last p))"
    using py_strip_ends by (auto simp: cleaned_params_def)
  moreover have "params ?r
      = map py_strip (filter (\<lambda>p. p \<noteq> []) (case ps of None \<Rightarrow> [] | Some xs \<Rightarrow> xs))"
    by (simp add: cleaned_params_def)
  ultimately show ?thesis
    using cleaned_params_agree [of ps]
    by (intro exI [of _ ?r]) simp
qed

theorem query_miss_witness:
  "(\<exists>r self1.
      query (\<lambda>s. int (length s)) ''t1'' ''SELECT 1'' (Some ['' a '', [], ''b''])
          \<lparr>connection = ''db'', cache = Map.empty, is_connected = True\<rparr> = (Inr r, self1, []) \<and>
      r = \<lparr>sql = ''SELECT 1'', params = [''a'', ''b''], timestamp = ''t1'', rows_affected = 2\<rparr>) \<and>
   (\<exists>r self1.
      query (\<lambda>s. int (length s)) ''t1'' ''SELECT 1'' None
          \<lparr>connection = ''db'', cache = Map.empty, is_connected = True\<rparr> = (Inr r, self1, []) \<and>
      r = \<lparr>sql = ''SELECT 1'', params = [], timestamp = ''t1'', rows_affected = 0\<rparr>)"
proof -
  let ?h = "\<lambda>s. int (length s)"
  let ?s = "\<lparr>connection = ''db'', cache = Map.empty, is_connected = True\<rparr>"
  have conn: "is_connected ?s" by simp
  have strip: "py_strip '' a '' = ''a''" "py_strip ''b'' = ''b''"
    by code_simp+
  have miss: "cache ?s (cache_key ?h ''SELECT 1'' ps) = None" for ps
    by simp
  from query_miss [where ps = "Some ['' a '', [], ''b'']" and now = "''t1''", OF conn miss]
  obtain r where
    "query ?h ''t1'' ''SELECT 1'' (Some ['' a '', [], ''b'']) ?s
       = (Inr r, ?s\<lparr>cache := (cache ?s)(cache_key ?h ''SELECT 1'' (Some ['' a '', [], ''b'']) \<mapsto> r)\<rparr>, [])"
    "sql r = ''SELECT 1''" "params r = [''a'', ''b'']" "rows_affected r = 2" "timestamp r = ''t1''"
    by (auto simp: strip)
  then have some: "\<exists>r self1.
      query ?h ''t1'' ''SELECT 1'' (Some ['' a '', [], ''b'']) ?s = (Inr r, self1, []) \<and>
      r = \<lparr>sql = ''SELECT 1'', params = [''a'', ''b''], timestamp = ''t1'', rows_affected = 2\<rparr>"
    by (cases r) auto
  from query_miss [where ps = None and now = "''t1''", OF conn miss]
  obtain r' where
    "query ?h ''t1'' ''SELECT 1'' None ?s
       = (Inr r', ?s\<lparr>cache := (cache ?s)(cache_key ?h ''SELECT 1'' None \<mapsto> r')\<rparr>, [])"
    "sql r' = ''SELECT 1''" "params r' = []" "rows_affected r' = 0" "timestamp r' = ''t1''"
    by auto
  then have none: "\<exists>r self1.
      query ?h ''t1'' ''SELECT 1'' None ?s = (Inr r, self1, []) \<and>
      r = \<lparr>sql = ''SELECT 1'', params = [], timestamp = ''t1'', rows_affected = 0\<rparr>"
    by (cases r') auto
  from some none show ?thesis by (rule conjI)
qed

text \<open>
  The claim as the specification words it fails on a parameter of whitespace only: the
  source tests the entry before stripping it, so the single blank is kept as an empty
  string and counted, where stripping first and dropping empty entries gives no entry.
\<close>

theorem query_miss_blank_counterexample:
  "fst (query length_hash ''t1'' ''SELECT 1'' (Some ['' ''])
         \<lparr>connection = ''db'', cache = Map.empty, is_connected = True\<rparr>)
     = Inr \<lparr>sql = ''SELECT 1'', params = [[]], timestamp = ''t1'', rows_affected = 1\<rparr> \<and>
   cleaned_params_spec (Some ['' '']) = []"
proof -
  have "cleaned_params (Some ['' '']) = [[]]" by code_simp
  moreover have "cleaned_params_spec (Some ['' '']) = []" by code_simp
  ultimately show ?thesis
    by (simp add: query_def Let_def)
qed

subsection \<open>The key is derived from the raw parameters\<close>

text \<open>
  C2. The parameter lists \<^verbatim>\<open>[" a ", "b"]\<close> and \<^verbatim>\<open>["a", "b"]\<close> have the same cleaned form
  and different raw string forms. The key is built from the hash of the raw string form,
  so whenever the hash tells the two forms apart, the same query text gets two different
  keys, and two queries on a connected object that holds neither key are two misses that
  store two separate entries with equal parameters.
\<close>

theorem cache_key_raw_params:
  assumes sep: "hash (str_params (Some ['' a '', ''b''])) \<noteq> hash (str_params (Some [''a'', ''b'']))"
    and conn: "is_connected self"
    and miss1: "cache self (cache_key hash q (Some ['' a '', ''b''])) = None"
    and miss2: "cache self (cache_key hash q (Some [''a'', ''b''])) = None"
    and first: "query hash now1 q (Some ['' a '', ''b'']) self = (res1, self1, out1)"
    and second: "query hash now2 q (Some [''a'', ''b'']) self1 = (res2, self2, out2)"
  shows "cleaned_params (Some ['' a '', ''b'']) = cleaned_params (Some [''a'', ''b'']) \<and>
         str_params (Some ['' a '', ''b'']) \<noteq> str_params (Some [''a'', ''b'']) \<and>
         cache_key hash q (Some ['' a '', ''b'']) \<noteq> cache_key hash q (Some [''a'', ''b'']) \<and>
         cache self2 (cache_key hash q (Some ['' a '', ''b'']))
           = Some \<lparr>sql = q, params = [''a'', ''b''], timestamp = now1, rows_affected = 2\<rparr> \<and>
         cache self2 (cache_key hash q (Some [''a'', ''b'']))
           = Some \<lparr>sql = q, params = [''a'', ''b''], timestamp = now2, rows_affected = 2\<rparr> \<and>
         out1 = [] \<and> out2 = []"
proof -
  let ?k1 = "cache_key hash q (Some ['' a '', ''b''])"
  let ?k2 = "cache_key hash q (Some [''a'', ''b''])"
  from sep have keys: "?k1 \<noteq> ?k2"
    by (simp add: cache_key_eq_iff)
  from sep have raw: "str_params (Some ['' a '', ''b'']) \<noteq> str_params (Some [''a'', ''b''])"
    by auto
  from conn miss1 first have s1: "self1 = self\<lparr>cache := (cache self)(?k1 \<mapsto>
        \<lparr>sql = q, params = [''a'', ''b''], timestamp = now1, rows_affected = 2\<rparr>)\<rparr>"
    and o1: "out1 = []"
    by (auto simp: query_def Let_def example_cleaned numeral_2_eq_2)
  from s1 conn miss2 keys have "is_connected self1" and "cache self1 ?k2 = None"
    by auto
  with second have s2: "self2 = self1\<lparr>cache := (cache self1)(?k2 \<mapsto>
        \<lparr>sql = q, params = [''a'', ''b''], timestamp = now2, rows_affected = 2\<rparr>)\<rparr>"
    and o2: "out2 = []"
    by (auto simp: query_def Let_def example_cleaned numeral_2_eq_2)
  from s1 s2 keys o1 o2 raw show ?thesis
    by (simp add: example_cleaned numeral_2_eq_2)
qed

theorem cache_key_raw_params_witness:
  "\<exists>res1 self1 res2 self2.
     query (\<lambda>s. int (length s)) ''t1'' ''SELECT 1'' (Some ['' a '', ''b''])
         \<lparr>connection = ''db'', cache = Map.empty, is_connected = True\<rparr> = (res1, self1, []) \<and>
     query (\<lambda>s. int (length s)) ''t2'' ''SELECT 1'' (Some [''a'', ''b'']) self1 = (res2, self2, []) \<and>
     cache self2 ''query_8_12''
       = Some \<lparr>sql = ''SELECT 1'', params = [''a'', ''b''], timestamp = ''t1'', rows_affected = 2\<rparr> \<and>
     cache self2 ''query_8_10''
       = Some \<lparr>sql = ''SELECT 1'', params = [''a'', ''b''], timestamp = ''t2'', rows_affected = 2\<rparr>"
proof -
  let ?h = "\<lambda>s. int (length s)"
  let ?s = "\<lparr>connection = ''db'', cache = Map.empty, is_connected = True\<rparr>"
  obtain res1 self1 out1 where
    first: "query ?h ''t1'' ''SELECT 1'' (Some ['' a '', ''b'']) ?s = (res1, self1, out1)"
    by (cases "query ?h ''t1'' ''SELECT 1'' (Some ['' a '', ''b'']) ?s")
  obtain res2 self2 out2 where
    second: "query ?h ''t2'' ''SELECT 1'' (Some [''a'', ''b'']) self1 = (res2, self2, out2)"
    by (cases "query ?h ''t2'' ''SELECT 1'' (Some [''a'', ''b'']) self1")
  have sep: "?h (str_params (Some ['' a '', ''b''])) \<noteq> ?h (str_params (Some [''a'', ''b'']))"
    by (simp add: example_str_params quoted_def)
  have conn: "is_connected ?s" by simp
  have miss1: "cache ?s (cache_key ?h ''SELECT 1'' (Some ['' a '', ''b''])) = None" by simp
  have miss2: "cache ?s (cache_key ?h ''SELECT 1'' (Some [''a'', ''b''])) = None" by simp
  from cache_key_raw_params [OF sep conn miss1 miss2 first second] first second
  show ?thesis
    by (simp add: example_keys)
qed

section \<open>Properties of \<^verbatim>\<open>process_data\<close>\<close>

subsection \<open>Dispatch on the type entry\<close>

text \<open>
  C5. A record with a present, non-null value is dispatched on its \<^verbatim>\<open>type\<close> entry. Under
  \<^verbatim>\<open>"string"\<close> the line is the label \<^verbatim>\<open>String:\<close> with the outcome of the value's
  \<^verbatim>\<open>upper()\<close>, which for a string is the string in upper case; under \<^verbatim>\<open>"number"\<close> the label
  \<^verbatim>\<open>Number:\<close> with the outcome of \<^verbatim>\<open>value * 2\<close>, which for an integer is its double; under
  \<^verbatim>\<open>"boolean"\<close> the label \<^verbatim>\<open>Boolean:\<close> with the negation of the value's truth value; under
  any other entry, or none, the label \<^verbatim>\<open>Unknown:\<close> with the value's text.
\<close>

theorem dispatch_on_type:
  assumes v: "dict_get item ''value'' = v" "v \<noteq> PNone"
    and tag: "dict_get item ''type'' = tag"
  shows "(tag = PStr ''string'' \<longrightarrow>
            process_data [item] =
              (case upper_method v of
                 Inl e \<Rightarrow> (Inl e, [])
               | Inr u \<Rightarrow> (Inr [''Item 0: String: '' @ u], [])) \<and>
            (\<forall>s. v = PStr s \<longrightarrow>
               process_data [item] = (Inr [''Item 0: String: '' @ py_upper s], []))) \<and>
         (tag = PStr ''number'' \<longrightarrow>
            process_data [item] =
              (case times_two v of
                 Inl e \<Rightarrow> (Inl e, [])
               | Inr d \<Rightarrow> (Inr [''Item 0: Number: '' @ py_str d], [])) \<and>
            (\<forall>n. v = PInt n \<longrightarrow>
               process_data [item] = (Inr [''Item 0: Number: '' @ str_of_int (n * 2)], []))) \<and>
         (tag = PStr ''boolean'' \<longrightarrow>
            process_data [item] =
              (Inr [''Item 0: Boolean: '' @ (if truthy v then ''False'' else ''True'')], [])) \<and>
         (tag \<noteq> PStr ''string'' \<and> tag \<noteq> PStr ''number'' \<and> tag \<noteq> PStr ''boolean'' \<longrightarrow>
            process_data [item] = (Inr [''Item 0: Unknown: '' @ py_str v], []))"
proof -
  have step: "process_data [item] =
      (case processed tag v of
         Inl e \<Rightarrow> (Inl e, [])
       | Inr p \<Rightarrow> (Inr [''Item 0: '' @ p], []))"
    using v tag by (simp add: process_data_def Let_def str_of_nat_0 split: sum.splits)
  show ?thesis
    unfolding step by (auto simp: processed_def split: sum.splits)
qed

theorem dispatch_on_type_witness:
  "process_data [[''type'' \<mapsto> PStr ''string'', ''value'' \<mapsto> PStr ''hello'']]
     = (Inr [''Item 0: String: HELLO''], []) \<and>
   process_data [[''type'' \<mapsto> PStr ''number'', ''value'' \<mapsto> PInt 21]]
     = (Inr [''Item 0: Number: 42''], []) \<and>
   process_data [[''type'' \<mapsto> PStr ''boolean'', ''value'' \<mapsto> PBool True]]
     = (Inr [''Item 0: Boolean: False''], []) \<and>
   process_data [[''type'' \<mapsto> PStr ''unknown'', ''value'' \<mapsto> PList [PInt 1, PInt 2, PInt 3]]]
     = (Inr [''Item 0: Unknown: [1, 2, 3]''], []) \<and>
   process_data [[''value'' \<mapsto> PList [PInt 1, PInt 2, PInt 3]]]
     = (Inr [''Item 0: Unknown: [1, 2, 3]''], [])"
proof -
  let ?l = "PList [PInt 1, PInt 2, PInt 3]"
  have up: "py_upper ''hello'' = ''HELLO''" by code_simp
  have dbl: "str_of_int (21 * 2) = ''42''" by code_simp
  have lst: "py_str ?l = ''[1, 2, 3]''" by code_simp
  have a: "process_data [[''type'' \<mapsto> PStr ''string'', ''value'' \<mapsto> PStr ''hello'']]
     = (Inr [''Item 0: String: HELLO''], [])"
    using dispatch_on_type [of "[''type'' \<mapsto> PStr ''string'', ''value'' \<mapsto> PStr ''hello'']"
        "PStr ''hello''" "PStr ''string''"]
    by (simp add: dict_get_def up)
  have b: "process_data [[''type'' \<mapsto> PStr ''number'', ''value'' \<mapsto> PInt 21]]
     = (Inr [''Item 0: Number: 42''], [])"
    using dispatch_on_type [of "[''type'' \<mapsto> PStr ''number'', ''value'' \<mapsto> PInt 21]"
        "PInt 21" "PStr ''number''"] dbl
    by (simp add: dict_get_def)
  have c: "process_data [[''type'' \<mapsto> PStr ''boolean'', ''value'' \<mapsto> PBool True]]
     = (Inr [''Item 0: Boolean: False''], [])"
    using dispatch_on_type [of "[''type'' \<mapsto> PStr ''boolean'', ''value'' \<mapsto> PBool True]"
        "PBool True" "PStr ''boolean''"]
    by (simp add: dict_get_def)
  have d: "process_data [[''type'' \<mapsto> PStr ''unknown'', ''value'' \<mapsto> ?l]]
     = (Inr [''Item 0: Unknown: [1, 2, 3]''], [])"
    using dispatch_on_type [of "[''type'' \<mapsto> PStr ''unknown'', ''value'' \<mapsto> ?l]"
        ?l "PStr ''unknown''"] lst
    by (simp add: dict_get_def)
  have e: "process_data [[''value'' \<mapsto> ?l]] = (Inr [''Item 0: Unknown: [1, 2, 3]''], [])"
    using dispatch_on_type [of "[''value'' \<mapsto> ?l]" ?l PNone] lst
    by (simp add: dict_get_def)
  from a b c d e show ?thesis by simp
qed

subsection \<open>Records without a value\<close>

text \<open>
  C6. In any batch, a record whose \<^verbatim>\<open>value\<close> entry is absent or \<^verbatim>\<open>None\<close>, reached after
  records that were processed without an exception, adds no entry to the results and
  exactly one diagnostic to the printed lines, and the records after it are processed as
  usual, under their own indices.
\<close>

theorem missing_value_skipped:
  assumes missing: "item ''value'' = None \<or> item ''value'' = Some PNone"
    and before: "process_data xs = (Inr rs, out)"
  shows "process_data (xs @ item # ys) =
           (case process_loop (Suc (length xs)) ys [] [] of
              (Inl e, o') \<Rightarrow> (Inl e, out @ [py_strip error_msg] @ o')
            | (Inr r, o') \<Rightarrow> (Inr (rs @ r), out @ [py_strip error_msg] @ o'))"
proof -
  from missing have v: "dict_get item ''value'' = PNone"
    by (simp add: dict_get_None_iff)
  from before have "process_data (xs @ item # ys) = process_loop (0 + length xs) (item # ys) rs out"
    unfolding process_data_def by (rule process_loop_append_Inr)
  also from v have "\<dots> = process_loop (Suc (length xs)) ys rs (out @ [py_strip error_msg])"
    by simp
  also have "\<dots> = (case process_loop (Suc (length xs)) ys [] [] of
              (Inl e, o') \<Rightarrow> (Inl e, (out @ [py_strip error_msg]) @ o')
            | (Inr r, o') \<Rightarrow> (Inr (rs @ r), (out @ [py_strip error_msg]) @ o'))"
    by (rule process_loop_from_empty)
  finally show ?thesis by (simp split: prod.splits sum.splits)
qed

theorem missing_value_skipped_witness:
  "process_data
     ([[''type'' \<mapsto> PStr ''string'', ''value'' \<mapsto> PStr ''hello world'']]
        @ [''type'' \<mapsto> PStr ''string'']
        # [[''type'' \<mapsto> PStr ''number'', ''value'' \<mapsto> PInt 42]])
     = (Inr [''Item 0: String: HELLO WORLD'', ''Item 2: Number: 84''], [py_strip error_msg]) \<and>
   process_data
     ([[''type'' \<mapsto> PStr ''string'', ''value'' \<mapsto> PStr ''hello world'']]
        @ [''type'' \<mapsto> PStr ''string'', ''value'' \<mapsto> PNone]
        # [[''type'' \<mapsto> PStr ''number'', ''value'' \<mapsto> PInt 42]])
     = (Inr [''Item 0: String: HELLO WORLD'', ''Item 2: Number: 84''], [py_strip error_msg])"
proof -
  let ?xs = "[[''type'' \<mapsto> PStr ''string'', ''value'' \<mapsto> PStr ''hello world'']]"
  let ?ys = "[[''type'' \<mapsto> PStr ''number'', ''value'' \<mapsto> PInt 42]]"
  have before: "process_data ?xs = (Inr [''Item 0: String: HELLO WORLD''], [])"
    by code_simp
  have after: "process_loop (Suc (length ?xs)) ?ys [] [] = (Inr [''Item 2: Number: 84''], [])"
    by code_simp
  have absent: "[''type'' \<mapsto> PStr ''string''] ''value'' = None \<or>
                [''type'' \<mapsto> PStr ''string''] ''value'' = Some PNone"
    by simp
  have null: "[''type'' \<mapsto> PStr ''string'', ''value'' \<mapsto> PNone] ''value'' = None \<or>
              [''type'' \<mapsto> PStr ''string'', ''value'' \<mapsto> PNone] ''value'' = Some PNone"
    by simp
  from missing_value_skipped [where item = "[''type'' \<mapsto> PStr ''string'']" and ys = ?ys,
         OF absent before]
    missing_value_skipped [where item = "[''type'' \<mapsto> PStr ''string'', ''value'' \<mapsto> PNone]"
         and ys = ?ys, OF null before]
  show ?thesis
    by (simp only: after prod.case sum.case append.simps)
qed

subsection \<open>Order and labels of the result\<close>

text \<open>
  C7. When no transformation raises, \<^verbatim>\<open>process_data\<close> returns, and its result has exactly
  one line for each record with a non-null value, in the order of the input, each line
  labelled with the index the record has in the input: the indices of skipped records are
  left out, the others are not renumbered. One diagnostic is printed per skipped record.
\<close>

theorem process_data_order:
  assumes ok: "\<forall>item \<in> set items. dict_get item ''value'' \<noteq> PNone \<longrightarrow>
                 (\<exists>p. processed (dict_get item ''type'') (dict_get item ''value'') = Inr p)"
  shows "\<exists>results out.
           process_data items = (Inr results, out) \<and>
           length results = length (filter (\<lambda>item. dict_get item ''value'' \<noteq> PNone) items) \<and>
           list_all2
             (\<lambda>line (i, item).
                \<exists>p. processed (dict_get item ''type'') (dict_get item ''value'') = Inr p \<and>
                    line = ''Item '' @ str_of_nat i @ '': '' @ p)
             results
             (filter (\<lambda>(i, item). dict_get item ''value'' \<noteq> PNone) (enumerate 0 items)) \<and>
           out = replicate (length (filter (\<lambda>item. dict_get item ''value'' = PNone) items))
                   (py_strip error_msg)"
proof -
  from process_loop_total [OF ok, of 0 "[]" "[]"] obtain results out where
    run: "process_data items = (Inr results, out)"
    by (auto simp: process_data_def)
  from process_loop_shape [OF run [unfolded process_data_def]]
  have shape: "list_all2
             (\<lambda>line (i, item).
                \<exists>p. processed (dict_get item ''type'') (dict_get item ''value'') = Inr p \<and>
                    line = ''Item '' @ str_of_nat i @ '': '' @ p)
             results
             (filter (\<lambda>(i, item). dict_get item ''value'' \<noteq> PNone) (enumerate 0 items))"
    and out: "out = replicate (length (filter (\<lambda>item. dict_get item ''value'' = PNone) items))
                   (py_strip error_msg)"
    by auto
  from shape have "length results
      = length (filter (\<lambda>(i, item). dict_get item ''value'' \<noteq> PNone) (enumerate 0 items))"
    by (rule list_all2_lengthD)
  then have "length results = length (filter (\<lambda>item. dict_get item ''value'' \<noteq> PNone) items)"
    by (simp only: length_filter_enumerate)
  with run shape out show ?thesis by blast
qed

theorem process_data_order_witness:
  "\<exists>results out.
     process_data
       [[''type'' \<mapsto> PStr ''string'', ''value'' \<mapsto> PStr ''hello''],
        [''type'' \<mapsto> PStr ''string''],
        [''type'' \<mapsto> PStr ''number'', ''value'' \<mapsto> PInt 21],
        [''value'' \<mapsto> PNone],
        [''type'' \<mapsto> PStr ''boolean'', ''value'' \<mapsto> PBool True]] = (Inr results, out) \<and>
     length results = 3 \<and> length out = 2 \<and>
     results = [''Item 0: String: HELLO'', ''Item 2: Number: 42'', ''Item 4: Boolean: False'']"
proof -
  let ?items = "[[''type'' \<mapsto> PStr ''string'', ''value'' \<mapsto> PStr ''hello''],
        [''type'' \<mapsto> PStr ''string''],
        [''type'' \<mapsto> PStr ''number'', ''value'' \<mapsto> PInt 21],
        [''value'' \<mapsto> PNone],
        [''type'' \<mapsto> PStr ''boolean'', ''value'' \<mapsto> PBool True]]"
  have ok: "\<forall>item \<in> set ?items. dict_get item ''value'' \<noteq> PNone \<longrightarrow>
              (\<exists>p. processed (dict_get item ''type'') (dict_get item ''value'') = Inr p)"
    by (simp add: dict_get_def processed_def)
  have run: "process_data ?items
      = (Inr [''Item 0: String: HELLO'', ''Item 2: Number: 42'', ''Item 4: Boolean: False''],
         [py_strip error_msg, py_strip error_msg])"
    by code_simp
  from process_data_order [OF ok] obtain results out where
    "process_data ?items = (Inr results, out)"
    "length results = length (filter (\<lambda>item. dict_get item ''value'' \<noteq> PNone) ?items)"
    by blast
  with run show ?thesis
    by (simp add: dict_get_def)
qed

subsection \<open>A failing transformation\<close>

text \<open>
  C8 (amended). Under \<^verbatim>\<open>"number"\<close> the value is multiplied by 2 with Python's \<^verbatim>\<open>*\<close>: the
  multiplication fails exactly for a value that has none (of the values modelled, a
  dictionary), while an integer or boolean is doubled and a string or list is repeated.
  A failure is not caught per record: reached after records that were processed without
  an exception, it ends \<^verbatim>\<open>process_data\<close> with that error and without a result; the lines
  printed before stay printed.
\<close>

theorem number_failure_aborts:
  assumes v: "dict_get item ''value'' = v" "v \<noteq> PNone"
    and tag: "dict_get item ''type'' = PStr ''number''"
    and before: "process_data xs = (Inr rs, out)"
  shows "process_data (xs @ item # ys) =
           (case times_two v of
              Inl e \<Rightarrow> (Inl e, out)
            | Inr d \<Rightarrow>
                process_loop (Suc (length xs)) ys
                  (rs @ [''Item '' @ str_of_nat (length xs) @ '': Number: '' @ py_str d]) out) \<and>
         ((\<exists>e. times_two v = Inl e) \<longleftrightarrow> (\<exists>kvs. v = PDict kvs))"
proof -
  from v(2) have "(\<exists>e. times_two v = Inl e) \<longleftrightarrow> (\<exists>kvs. v = PDict kvs)"
    by (simp add: times_two_fails_iff)
  moreover from present_value_step [OF v before, of ys] tag
  have "process_data (xs @ item # ys) =
           (case times_two v of
              Inl e \<Rightarrow> (Inl e, out)
            | Inr d \<Rightarrow>
                process_loop (Suc (length xs)) ys
                  (rs @ [''Item '' @ str_of_nat (length xs) @ '': Number: '' @ py_str d]) out)"
    by (simp add: processed_def split: sum.splits)
  ultimately show ?thesis by simp
qed

theorem number_failure_aborts_witness:
  "process_data
     ([[''type'' \<mapsto> PStr ''string'', ''value'' \<mapsto> PStr ''hello'']]
        @ [''type'' \<mapsto> PStr ''number'', ''value'' \<mapsto> PDict [(''a'', PInt 1)]]
        # [[''type'' \<mapsto> PStr ''number'', ''value'' \<mapsto> PInt 21]])
     = (Inl (TypeError (''unsupported operand type(s) for *: '' @ quoted ''dict'' @ '' and ''
              @ quoted ''int'')), [])"
proof -
  let ?xs = "[[''type'' \<mapsto> PStr ''string'', ''value'' \<mapsto> PStr ''hello'']]"
  let ?item = "[''type'' \<mapsto> PStr ''number'', ''value'' \<mapsto> PDict [(''a'', PInt 1)]]"
  have before: "process_data ?xs = (Inr [''Item 0: String: HELLO''], [])"
    by code_simp
  have v: "dict_get ?item ''value'' = PDict [(''a'', PInt 1)]" "PDict [(''a'', PInt 1)] \<noteq> PNone"
    by (simp_all add: dict_get_def)
  have tag: "dict_get ?item ''type'' = PStr ''number''"
    by (simp add: dict_get_def)
  from number_failure_aborts [where item = ?item, OF v tag before] show ?thesis
    by simp
qed

text \<open>
  As stated, the claim fails for a non-numeric value that Python can multiply: a string
  under \<^verbatim>\<open>"number"\<close> is repeated, and the batch returns normally.
\<close>

theorem number_on_string_counterexample:
  "process_data [[''type'' \<mapsto> PStr ''number'', ''value'' \<mapsto> PStr ''ab'']]
     = (Inr [''Item 0: Number: abab''], [])"
  by code_simp

subsection \<open>Falsy values\<close>



end
